theory Spec2Isabelle
  imports Complex_Main "HOL-Library.Sublist"
begin

section \<open>The AML dashboard engine of src/app.js\<close>

text \<open>
  The class \<open>AMLDashboard\<close> keeps a ledger of transactions, a list of alerts and a map of
  pattern counters, and mutates them from a timer (\<open>generateInterval\<close>) and from button
  handlers. The embedding passes the object's fields as an explicit state. JavaScript
  numbers are modelled as reals (exact arithmetic), instants as integer milliseconds, and
  every call of \<open>Math.random()\<close>, \<open>Date.now()\<close> and \<open>new Date()\<close> is an input of the
  function that makes it. Rendering (the DOM, the charts) is not modelled.
\<close>

subsection \<open>Data\<close>

datatype risk_level = Low | Medium | High | Critical

record person =
  name :: string
  account :: string
  type_person :: string

record transaction =
  id_txn :: string
  timestamp :: int
  amount :: real
  currency :: string
  paymentMethod :: string
  sender :: person
  receiver :: person
  senderLocation :: string
  receiverLocation :: string
  riskScore :: real
  riskLevel :: risk_level
  patterns :: "string list"
  riskFactors :: "string list"

text \<open>The five entries of \<open>alertTypes\<close> in \<open>generateAlert\<close> (the icon is display only).\<close>

datatype alert_type =
  SuspiciousPattern | ThresholdExceeded | GeographicRiskAlert | VelocityAlert | CustomerRisk

fun type_of :: "alert_type \<Rightarrow> string" where
  "type_of SuspiciousPattern = ''Suspicious Pattern''"
| "type_of ThresholdExceeded = ''Threshold Exceeded''"
| "type_of GeographicRiskAlert = ''Geographic Risk''"
| "type_of VelocityAlert = ''Velocity Alert''"
| "type_of CustomerRisk = ''Customer Risk''"

fun priority_of :: "alert_type \<Rightarrow> string" where
  "priority_of SuspiciousPattern = ''high''"
| "priority_of ThresholdExceeded = ''medium''"
| "priority_of GeographicRiskAlert = ''medium''"
| "priority_of VelocityAlert = ''high''"
| "priority_of CustomerRisk = ''high''"

text \<open>
  The five templates of \<open>generateAlertDescription\<close>, each with the parts of the
  transaction it interpolates; the formatting of the text is not modelled.
\<close>

datatype template = Template0 | Template1 | Template2 | Template3 | Template4

datatype alert_description =
  HighRiskTransaction string real
| SuspiciousPatternFrom string
| MultipleRiskFactors string
| VelocityThresholdExceeded string
| GeographicRiskInvolved

record alert =
  id_alert :: "int \<times> int"
  timestamp_alert :: int
  transactionId :: string
  type_alert :: string
  priority :: string
  description :: alert_description
  acknowledged :: bool

text \<open>
  What one run of \<open>analyzeTransaction\<close> reads from the clock and from \<open>Math.random()\<close>,
  in the order of the calls. \<open>checkVelocity\<close> calls \<open>Date.now()\<close> inside the callback of
  its filter, once for each ledger entry of the sender's account: \<open>nowVelocity d k\<close> is
  what the call number \<open>k\<close> returns, counting from 0. A draw that only selects an array
  entry (\<open>xs[Math.floor(Math.random() * xs.length)]\<close>) is given as the entry selected.
\<close>

record draws =
  nowVelocity :: "nat \<Rightarrow> int"
  layeringDraw :: real
  smurfingDraw :: real
  jitterDraw :: real
  alertTypeDraw :: alert_type
  nowAlertId :: int
  alertIdDraw :: real
  nowAlert :: int
  descriptionDraw :: template

record state =
  transactions :: "transaction list"
  alerts :: "alert list"
  patterns_st :: "string \<rightharpoonup> nat"
  isRunning :: bool
  totalProcessed :: nat

record sar_entry =
  id_sar :: string
  timestamp_sar :: int
  amount_sar :: real
  currency_sar :: string
  riskScore_sar :: real
  patterns_sar :: "string list"
  riskFactors_sar :: "string list"

record sar_data =
  reportDate :: int
  totalTransactions :: nat
  transactions_sar :: "sar_entry list"

subsection \<open>Constants of the constructor\<close>

definition amlPatterns :: "(string \<times> string) list" where
  "amlPatterns =
    [(''Structuring'', ''High''), (''Layering'', ''Critical''), (''Smurfing'', ''High''),
     (''Large Cash'', ''Medium''), (''Geographic Risk'', ''Medium''), (''Velocity'', ''High''),
     (''Round Amount'', ''Low'')]"

definition highRiskCountries :: "string list" where
  "highRiskCountries =
    [''North Korea'', ''Iran'', ''Afghanistan'', ''Myanmar'', ''Syria'', ''Somalia'',
     ''Yemen'', ''Libya'']"

subsection \<open>JavaScript primitives\<close>

text \<open>\<open>a % b\<close> on numbers: the remainder of the division truncated towards zero.\<close>

definition js_trunc :: "real \<Rightarrow> int" where
  "js_trunc x = (if x < 0 then \<lceil>x\<rceil> else \<lfloor>x\<rfloor>)"

definition js_rem :: "real \<Rightarrow> real \<Rightarrow> real" where
  "js_rem a b = a - b * of_int (js_trunc (a / b))"

text \<open>\<open>s.includes(c)\<close>: \<open>c\<close> occurs in \<open>s\<close> as a contiguous run.\<close>

definition includes_str :: "string \<Rightarrow> string \<Rightarrow> bool" where
  "includes_str s c = sublist c s"

subsection \<open>The velocity check\<close>

text \<open>
  \<open>checkVelocity\<close> filters the ledger \<open>this.transactions\<close> with the callback
  \<open>t.sender.account === transaction.sender.account &&
   (Date.now() - t.timestamp.getTime()) < 3600000\<close>. The conjunction reads the clock only
  for an entry of the same account, and reads it anew for each such entry.
  \<open>recentFrom nows k\<close> is the filter over the rest of the ledger when \<open>k\<close> readings have
  been taken; \<open>recentTransactions\<close> is the local constant of that name.
\<close>

fun recentFrom :: "(nat \<Rightarrow> int) \<Rightarrow> nat \<Rightarrow> string \<Rightarrow> transaction list \<Rightarrow> transaction list" where
  "recentFrom nows k acct [] = []"
| "recentFrom nows k acct (u # us) =
     (if account (sender u) = acct
      then (if nows k - timestamp u < 3600000 then u # recentFrom nows (Suc k) acct us
            else recentFrom nows (Suc k) acct us)
      else recentFrom nows k acct us)"

definition recentTransactions :: "state \<Rightarrow> transaction \<Rightarrow> (nat \<Rightarrow> int) \<Rightarrow> transaction list" where
  "recentTransactions s t nows = recentFrom nows 0 (account (sender t)) (transactions s)"

definition checkVelocity :: "state \<Rightarrow> transaction \<Rightarrow> (nat \<Rightarrow> int) \<Rightarrow> bool" where
  "checkVelocity s t nows = (length (recentTransactions s t nows) > 5)"

subsection \<open>Alerts\<close>

fun generateAlertDescription :: "transaction \<Rightarrow> template \<Rightarrow> alert_description" where
  "generateAlertDescription t Template0 = HighRiskTransaction (currency t) (amount t)"
| "generateAlertDescription t Template1 = SuspiciousPatternFrom (senderLocation t)"
| "generateAlertDescription t Template2 = MultipleRiskFactors (paymentMethod t)"
| "generateAlertDescription t Template3 =
     VelocityThresholdExceeded
       (drop (length (account (sender t)) - 6) (account (sender t)))"
| "generateAlertDescription t Template4 = GeographicRiskInvolved"

definition newAlert :: "transaction \<Rightarrow> draws \<Rightarrow> alert" where
  "newAlert t d =
     \<lparr>id_alert = (nowAlertId d, \<lfloor>alertIdDraw d * 1000\<rfloor>),
      timestamp_alert = nowAlert d,
      transactionId = id_txn t,
      type_alert = type_of (alertTypeDraw d),
      priority = priority_of (alertTypeDraw d),
      description = generateAlertDescription t (descriptionDraw d),
      acknowledged = False\<rparr>"

definition generateAlert :: "state \<Rightarrow> transaction \<Rightarrow> draws \<Rightarrow> state" where
  "generateAlert s t d =
     (let as = newAlert t d # alerts s
      in s\<lparr>alerts := (if length as > 50 then take 50 as else as)\<rparr>)"

subsection \<open>Pattern counters\<close>

text \<open>
  The \<open>forEach\<close> that closes \<open>analyzeTransaction\<close>:
  \<open>current = this.patterns.get(pattern) || 0; this.patterns.set(pattern, current + 1)\<close>.
\<close>

fun incrementPatterns :: "string list \<Rightarrow> (string \<rightharpoonup> nat) \<Rightarrow> (string \<rightharpoonup> nat)" where
  "incrementPatterns [] m = m"
| "incrementPatterns (p # ps) m =
     incrementPatterns ps (m(p \<mapsto> (case m p of None \<Rightarrow> 0 | Some c \<Rightarrow> c) + 1))"

fun initializePatterns :: "(string \<times> string) list \<Rightarrow> (string \<rightharpoonup> nat) \<Rightarrow> (string \<rightharpoonup> nat)" where
  "initializePatterns [] m = m"
| "initializePatterns (p # ps) m = initializePatterns ps (m(fst p \<mapsto> 0))"

subsection \<open>Scoring\<close>

text \<open>
  The accumulator of \<open>analyzeTransaction\<close>: the local \<open>riskScore\<close>, the local
  \<open>riskFactors\<close> and \<open>transaction.patterns\<close>. \<open>fire\<close> is one rule:
  \<open>if (c) { riskScore += delta; riskFactors.push(factor); transaction.patterns.push(tag) }\<close>,
  the last part for the rules that have a tag.
\<close>

type_synonym acc = "real \<times> string list \<times> string list"

definition fire :: "bool \<Rightarrow> real \<Rightarrow> string \<Rightarrow> string list \<Rightarrow> acc \<Rightarrow> acc" where
  "fire c delta factor tag a =
     (case a of (score, factors, pats) \<Rightarrow>
        if c then (score + delta, factors @ [factor], pats @ tag) else a)"

definition geographicRisk :: "transaction \<Rightarrow> bool" where
  "geographicRisk t =
     list_ex (\<lambda>country. includes_str (senderLocation t) country \<or>
                         includes_str (receiverLocation t) country) highRiskCountries"

text \<open>The nine rules, in the order of the source (up to the jitter).\<close>

definition scoreRules :: "state \<Rightarrow> transaction \<Rightarrow> draws \<Rightarrow> acc" where
  "scoreRules s t d =
     (fire (smurfingDraw d < 0.03) 45 ''Potential smurfing activity'' [''Smurfing'']
     (fire (layeringDraw d < 0.05) 50 ''Complex layering pattern detected'' [''Layering'']
     (fire (checkVelocity s t (nowVelocity d)) 35 ''High transaction velocity detected''
        [''Velocity'']
     (fire (paymentMethod t = ''Cryptocurrency'') 15 ''Cryptocurrency transaction'' []
     (fire (paymentMethod t = ''Cash Deposit'' \<and> amount t > 5000) 20
        ''Large cash transaction'' [''Large Cash'']
     (fire (geographicRisk t) 25 ''High-risk jurisdiction involved'' [''Geographic Risk'']
     (fire (amount t \<ge> 9000 \<and> amount t < 10000) 40
        ''Amount just under reporting threshold'' [''Structuring'']
     (fire (js_rem (amount t) 1000 = 0 \<and> amount t > 5000) 15 ''Suspicious round amount''
        [''Round Amount'']
     (fire (amount t > 100000) 30 ''Large amount transaction'' []
        (0, [], patterns t))))))))))"

text \<open>\<open>Math.max(1, Math.min(100, Math.floor(riskScore)))\<close>\<close>

definition clampScore :: "real \<Rightarrow> real" where
  "clampScore x = max 1 (min 100 (of_int \<lfloor>x\<rfloor>))"

definition levelOf :: "real \<Rightarrow> risk_level" where
  "levelOf score =
     (if score \<ge> 76 then Critical
      else if score \<ge> 51 then High
      else if score \<ge> 26 then Medium
      else Low)"

text \<open>
  \<open>analyzeTransaction\<close> mutates the transaction and the dashboard; the model returns
  both. The order is the source's: score, level, alert, pattern counters.
\<close>

definition analyzeTransaction :: "state \<Rightarrow> transaction \<Rightarrow> draws \<Rightarrow> transaction \<times> state" where
  "analyzeTransaction s t d =
     (case scoreRules s t d of (raw, factors, pats) \<Rightarrow>
        let score = clampScore (raw + (jitterDraw d * 10 - 5));
            t' = t\<lparr>riskScore := score, riskLevel := levelOf score, patterns := pats,
                   riskFactors := factors\<rparr>;
            s1 = (if score \<ge> 51 then generateAlert s t' d else s);
            s2 = s1\<lparr>patterns_st := incrementPatterns (patterns t') (patterns_st s1)\<rparr>
        in (t', s2))"

subsection \<open>The ledger and the timer\<close>

definition addTransaction :: "state \<Rightarrow> transaction \<Rightarrow> state" where
  "addTransaction s t =
     (let ts = t # transactions s
      in s\<lparr>transactions := (if length ts > 100 then take 100 ts else ts),
            totalProcessed := totalProcessed s + 1\<rparr>)"

text \<open>
  \<open>generateTransaction\<close>: the argument carries the fields the source draws at random;
  the derived fields start at \<open>0\<close>, \<open>'Low'\<close>, \<open>[]\<close>, \<open>[]\<close>.
\<close>

definition generateTransaction :: "state \<Rightarrow> transaction \<Rightarrow> draws \<Rightarrow> transaction \<times> state" where
  "generateTransaction s raw d =
     analyzeTransaction s
       (raw\<lparr>riskScore := 0, riskLevel := Low, patterns := [], riskFactors := []\<rparr>) d"

text \<open>One firing of the timer callback of \<open>startTransactionGeneration\<close>.\<close>

definition generateInterval :: "state \<Rightarrow> transaction \<Rightarrow> draws \<Rightarrow> state" where
  "generateInterval s raw d =
     (if isRunning s
      then (case generateTransaction s raw d of (t, s') \<Rightarrow> addTransaction s' t)
      else s)"

definition togglePause :: "state \<Rightarrow> transaction \<Rightarrow> draws \<Rightarrow> state" where
  "togglePause s raw d =
     (let s' = s\<lparr>isRunning := \<not> isRunning s\<rparr>
      in if isRunning s' then generateInterval s' raw d else s')"

subsection \<open>Acknowledging and exporting\<close>

text \<open>
  \<open>acknowledgeAlert\<close>: \<open>this.alerts.find(a => a.transactionId === transactionId)\<close> and,
  when an alert is found, \<open>alert.acknowledged = true\<close> on that object. The identifier is
  the modal's attribute, \<open>None\<close> for \<open>null\<close>.
\<close>

fun acknowledgeFound :: "string option \<Rightarrow> alert list \<Rightarrow> alert list" where
  "acknowledgeFound tid [] = []"
| "acknowledgeFound tid (a # as) =
     (if Some (transactionId a) = tid then a\<lparr>acknowledged := True\<rparr> # as
      else a # acknowledgeFound tid as)"

definition acknowledgeAlert :: "state \<Rightarrow> string option \<Rightarrow> state" where
  "acknowledgeAlert s tid = s\<lparr>alerts := acknowledgeFound tid (alerts s)\<rparr>"

definition investigateTransaction :: "state \<Rightarrow> string option \<Rightarrow> state" where
  "investigateTransaction s tid = acknowledgeAlert s tid"

definition highRisk :: "transaction \<Rightarrow> bool" where
  "highRisk t = (riskLevel t = High \<or> riskLevel t = Critical)"

definition sarEntry :: "transaction \<Rightarrow> sar_entry" where
  "sarEntry t =
     \<lparr>id_sar = id_txn t, timestamp_sar = timestamp t, amount_sar = amount t,
      currency_sar = currency t, riskScore_sar = riskScore t, patterns_sar = patterns t,
      riskFactors_sar = riskFactors t\<rparr>"

definition exportSAR :: "state \<Rightarrow> int \<Rightarrow> sar_data" where
  "exportSAR s now =
     (let highRiskTransactions = filter highRisk (transactions s)
      in \<lparr>reportDate = now,
          totalTransactions = length highRiskTransactions,
          transactions_sar = map sarEntry highRiskTransactions\<rparr>)"

subsection \<open>The dashboard as a machine\<close>

text \<open>The state the constructor and \<open>initializePatterns\<close> leave.\<close>

definition initial :: state where
  "initial =
     \<lparr>transactions = [], alerts = [], patterns_st = initializePatterns amlPatterns Map.empty,
      isRunning = True, totalProcessed = 0\<rparr>"

datatype event =
  Tick transaction draws
| TogglePause transaction draws
| Acknowledge "string option"
| Investigate "string option"

fun step :: "state \<Rightarrow> event \<Rightarrow> state" where
  "step s (Tick raw d) = generateInterval s raw d"
| "step s (TogglePause raw d) = togglePause s raw d"
| "step s (Acknowledge tid) = acknowledgeAlert s tid"
| "step s (Investigate tid) = investigateTransaction s tid"

definition run :: "event list \<Rightarrow> state" where
  "run es = foldl step initial es"

subsection \<open>Sample inputs\<close>

text \<open>
  A transaction on which no amount, location or payment-method rule fires unless the
  arguments say so, and draws under which the clock stands still, neither random rule
  fires and the jitter is \<open>0.5 * 10 - 5 = 0\<close>.
\<close>

definition sample_person :: "string \<Rightarrow> person" where
  "sample_person a = \<lparr>name = ''Jane Smith'', account = a, type_person = ''Individual''\<rparr>"

definition sample_txn :: "string \<Rightarrow> int \<Rightarrow> real \<Rightarrow> string \<Rightarrow> transaction" where
  "sample_txn i ts amt method =
     \<lparr>id_txn = i, timestamp = ts, amount = amt, currency = ''USD'', paymentMethod = method,
      sender = sample_person ''ACC123456789'', receiver = sample_person ''ACC987654321'',
      senderLocation = ''London, UK'', receiverLocation = ''Singapore'',
      riskScore = 0, riskLevel = Low, patterns = [], riskFactors = []\<rparr>"

definition sample_draws :: "int \<Rightarrow> draws" where
  "sample_draws now =
     \<lparr>nowVelocity = (\<lambda>k. now), layeringDraw = 1 / 2, smurfingDraw = 1 / 2, jitterDraw = 1 / 2,
      alertTypeDraw = VelocityAlert, nowAlertId = now, alertIdDraw = 1 / 4, nowAlert = now,
      descriptionDraw = Template3\<rparr>"

definition sample_tick :: "string \<Rightarrow> int \<Rightarrow> event" where
  "sample_tick i now = Tick (sample_txn i now 100 ''ACH'') (sample_draws now)"




text \<open>
  Six transactions of that account made at the same instant, and a clock that moves on
  by a millisecond after its first reading.
\<close>

definition same_instant_six :: "event list" where
  "same_instant_six =
     [sample_tick ''T1'' 1000, sample_tick ''T2'' 1000, sample_tick ''T3'' 1000,
      sample_tick ''T4'' 1000, sample_tick ''T5'' 1000, sample_tick ''T6'' 1000]"

definition ticking :: "nat \<Rightarrow> int" where
  "ticking k = (if k = 0 then 3600999 else 3601000)"

text \<open>A transaction that scores 55 and raises an alert.\<close>

definition once_alerted :: "event list" where
  "once_alerted = [Tick (sample_txn ''T1'' 1000 9500 ''Cryptocurrency'') (sample_draws 1000)]"

text \<open>
  Two transactions that score 55 and share an identifier, then an acknowledgement of
  that identifier.
\<close>

definition twice_alerted :: "event list" where
  "twice_alerted =
     [Tick (sample_txn ''T1'' 1000 9500 ''Cryptocurrency'') (sample_draws 1000),
      Tick (sample_txn ''T1'' 2000 9500 ''Cryptocurrency'') (sample_draws 2000),
      Acknowledge (Some ''T1'')]"

subsection \<open>The operations as the specification words them\<close>

text \<open>
  The count of the specification's velocity tracker: the recorded timestamps \<open>t\<close> of the
  account with \<open>now - windowDuration \<le> t \<le> now\<close>.
\<close>

definition countWithin_spec :: "state \<Rightarrow> string \<Rightarrow> int \<Rightarrow> int \<Rightarrow> nat" where
  "countWithin_spec s accountId now windowDuration =
     length (filter (\<lambda>u. account (sender u) = accountId \<and>
                         now - windowDuration \<le> timestamp u \<and> timestamp u \<le> now)
               (transactions s))"

text \<open>
  The acknowledgement of the specification: the flag is set on the most recent alert
  that matches the identifier and is not yet acknowledged.
\<close>

fun acknowledge_spec :: "string \<Rightarrow> alert list \<Rightarrow> alert list" where
  "acknowledge_spec tid [] = []"
| "acknowledge_spec tid (a # as) =
     (if transactionId a = tid \<and> \<not> acknowledged a then a\<lparr>acknowledged := True\<rparr> # as
      else a # acknowledge_spec tid as)"

section \<open>Properties\<close>

subsection \<open>Auxiliary facts\<close>

lemma clampScore_int: "clampScore x = of_int (max 1 (min 100 \<lfloor>x\<rfloor>))"
  by (simp add: clampScore_def max_def min_def)

lemma levelOf_int:
  "levelOf (of_int k) =
     (if k \<le> 25 then Low else if k \<le> 50 then Medium else if k \<le> 75 then High else Critical)"
  by (simp add: levelOf_def)

lemma analyze_fst:
  "fst (analyzeTransaction s t d) =
     t\<lparr>riskScore := clampScore (fst (scoreRules s t d) + (jitterDraw d * 10 - 5)),
       riskLevel := levelOf (clampScore (fst (scoreRules s t d) + (jitterDraw d * 10 - 5))),
       patterns := snd (snd (scoreRules s t d)),
       riskFactors := fst (snd (scoreRules s t d))\<rparr>"
  by (simp add: analyzeTransaction_def Let_def split: prod.splits)

lemma analyze_snd:
  "snd (analyzeTransaction s t d) =
     (let t' = fst (analyzeTransaction s t d);
          s1 = (if riskScore t' \<ge> 51 then generateAlert s t' d else s)
      in s1\<lparr>patterns_st := incrementPatterns (patterns t') (patterns_st s1)\<rparr>)"
  by (simp add: analyzeTransaction_def Let_def split: prod.splits)

lemma generateAlert_alerts: "alerts (generateAlert s t d) = take 50 (newAlert t d # alerts s)"
  by (simp add: generateAlert_def Let_def)

lemma generateAlert_other:
  "transactions (generateAlert s t d) = transactions s"
  "patterns_st (generateAlert s t d) = patterns_st s"
  "isRunning (generateAlert s t d) = isRunning s"
  "totalProcessed (generateAlert s t d) = totalProcessed s"
  by (simp_all add: generateAlert_def Let_def)

lemma analyze_transactions: "transactions (snd (analyzeTransaction s t d)) = transactions s"
  by (simp add: analyze_snd Let_def generateAlert_other)


lemma analyze_alerts:
  "alerts (snd (analyzeTransaction s t d)) =
     (if riskScore (fst (analyzeTransaction s t d)) \<ge> 51
      then take 50 (newAlert (fst (analyzeTransaction s t d)) d # alerts s) else alerts s)"
  by (simp add: analyze_snd Let_def generateAlert_alerts)

lemma analyze_patterns_st:
  "patterns_st (snd (analyzeTransaction s t d)) =
     incrementPatterns (patterns (fst (analyzeTransaction s t d))) (patterns_st s)"
  by (simp add: analyze_snd Let_def generateAlert_other)

lemma addTransaction_transactions:
  "transactions (addTransaction s t) = take 100 (t # transactions s)"
  by (simp add: addTransaction_def Let_def)

lemma addTransaction_other:
  "alerts (addTransaction s t) = alerts s"
  "patterns_st (addTransaction s t) = patterns_st s"
  "isRunning (addTransaction s t) = isRunning s"
  by (simp_all add: addTransaction_def Let_def)

lemma acknowledgeFound_length: "length (acknowledgeFound tid as) = length as"
  by (induction as) auto

lemma generateInterval_eq:
  "generateInterval s raw d =
     (if isRunning s
      then addTransaction (snd (generateTransaction s raw d)) (fst (generateTransaction s raw d))
      else s)"
  by (simp add: generateInterval_def split: prod.splits)

lemma generateInterval_transactions_bound:
  "length (transactions s) \<le> 100 \<Longrightarrow> length (transactions (generateInterval s raw d)) \<le> 100"
  by (simp add: generateInterval_eq addTransaction_transactions)

lemma generateInterval_alerts_bound:
  "length (alerts s) \<le> 50 \<Longrightarrow> length (alerts (generateInterval s raw d)) \<le> 50"
  by (simp add: generateInterval_eq addTransaction_other generateTransaction_def analyze_alerts)

lemma step_transactions_bound:
  "length (transactions s) \<le> 100 \<Longrightarrow> length (transactions (step s e)) \<le> 100"
  by (cases e)
     (simp_all add: togglePause_def acknowledgeAlert_def investigateTransaction_def
        generateInterval_transactions_bound Let_def)

lemma step_alerts_bound: "length (alerts s) \<le> 50 \<Longrightarrow> length (alerts (step s e)) \<le> 50"
  by (cases e)
     (simp_all add: togglePause_def acknowledgeAlert_def investigateTransaction_def
        generateInterval_alerts_bound acknowledgeFound_length Let_def)

lemma foldl_step_transactions_bound:
  "length (transactions s) \<le> 100 \<Longrightarrow> length (transactions (foldl step s es)) \<le> 100"
  by (induction es arbitrary: s) (simp_all add: step_transactions_bound)

lemma foldl_step_alerts_bound:
  "length (alerts s) \<le> 50 \<Longrightarrow> length (alerts (foldl step s es)) \<le> 50"
  by (induction es arbitrary: s) (simp_all add: step_alerts_bound)

lemma take_append_take: "take n (ys @ take n zs) = take n (ys @ zs)"
  by (simp add: min_def)

lemma foldl_addTransaction:
  "length (transactions s) \<le> 100 \<Longrightarrow>
   transactions (foldl addTransaction s ts) = take 100 (rev ts @ transactions s)"
proof (induction ts arbitrary: s)
  case Nil
  then show ?case by simp
next
  case (Cons t ts)
  have bound: "length (transactions (addTransaction s t)) \<le> 100"
    by (simp add: addTransaction_transactions)
  have "transactions (foldl addTransaction s (t # ts)) =
        transactions (foldl addTransaction (addTransaction s t) ts)"
    by simp
  also have "\<dots> = take 100 (rev ts @ transactions (addTransaction s t))"
    by (rule Cons.IH [OF bound])
  also have "\<dots> = take 100 (rev ts @ take 100 (t # transactions s))"
    by (simp only: addTransaction_transactions)
  also have "\<dots> = take 100 (rev ts @ t # transactions s)"
    by (rule take_append_take)
  also have "\<dots> = take 100 (rev (t # ts) @ transactions s)"
    by simp
  finally show ?case .
qed

lemma foldl_generateAlert:
  "length (alerts s) \<le> 50 \<Longrightarrow>
   alerts (foldl (\<lambda>s (t, d). generateAlert s t d) s xs) =
     take 50 (rev (map (\<lambda>(t, d). newAlert t d) xs) @ alerts s)"
proof (induction xs arbitrary: s)
  case Nil
  then show ?case by simp
next
  case (Cons x xs)
  obtain t d where x: "x = (t, d)" by (cases x)
  let ?f = "\<lambda>s (t, d). generateAlert s t d"
  let ?new = "map (\<lambda>(t, d). newAlert t d)"
  have bound: "length (alerts (generateAlert s t d)) \<le> 50"
    by (simp add: generateAlert_alerts)
  have "alerts (foldl ?f s (x # xs)) = alerts (foldl ?f (generateAlert s t d) xs)"
    by (simp add: x)
  also have "\<dots> = take 50 (rev (?new xs) @ alerts (generateAlert s t d))"
    by (rule Cons.IH [OF bound])
  also have "\<dots> = take 50 (rev (?new xs) @ take 50 (newAlert t d # alerts s))"
    by (simp only: generateAlert_alerts)
  also have "\<dots> = take 50 (rev (?new xs) @ newAlert t d # alerts s)"
    by (rule take_append_take)
  also have "\<dots> = take 50 (rev (?new (x # xs)) @ alerts s)"
    by (simp add: x)
  finally show ?case .
qed

lemma step_transactions:
  "transactions (step s e) = transactions s \<or>
   (\<exists>t'. transactions (step s e) = take 100 (t' # transactions s))"
proof -
  have g: "transactions (generateInterval s' raw d) = transactions s' \<or>
      (\<exists>t'. transactions (generateInterval s' raw d) = take 100 (t' # transactions s'))"
    for s' raw d
    by (cases "isRunning s'")
       (auto simp: generateInterval_eq addTransaction_transactions generateTransaction_def
          analyze_transactions simp del: take_Cons_numeral)
  show ?thesis
  proof (cases e)
    case (Tick raw d)
    then show ?thesis
      using g [of s raw d] by simp
  next
    case (TogglePause raw d)
    have "transactions (generateInterval (s\<lparr>isRunning := b\<rparr>) raw d) = transactions s \<or>
        (\<exists>t'. transactions (generateInterval (s\<lparr>isRunning := b\<rparr>) raw d) =
           take 100 (t' # transactions s))" for b
      using g [of "s\<lparr>isRunning := b\<rparr>" raw d] by simp
    then show ?thesis
      using TogglePause by (simp add: togglePause_def Let_def del: take_Cons_numeral)
  next
    case (Acknowledge tid)
    then show ?thesis
      by (simp add: acknowledgeAlert_def)
  next
    case (Investigate tid)
    then show ?thesis
      by (simp add: investigateTransaction_def acknowledgeAlert_def)
  qed
qed

lemma acknowledgeFound_ids:
  "map transactionId (acknowledgeFound tid as) = map transactionId as"
  by (induction as) auto

lemma step_alerts:
  "map transactionId (alerts (step s e)) = map transactionId (alerts s) \<or>
   (\<exists>a. alerts (step s e) = take 50 (a # alerts s))"
proof -
  have g: "alerts (generateInterval s' raw d) = alerts s' \<or>
      (\<exists>a. alerts (generateInterval s' raw d) = take 50 (a # alerts s'))"
    for s' raw d
    by (cases "isRunning s'")
       (auto simp: generateInterval_eq addTransaction_other generateTransaction_def
          analyze_alerts simp del: take_Cons_numeral)
  show ?thesis
  proof (cases e)
    case (Tick raw d)
    then show ?thesis
      using g [of s raw d] by auto
  next
    case (TogglePause raw d)
    have "alerts (generateInterval (s\<lparr>isRunning := b\<rparr>) raw d) = alerts s \<or>
        (\<exists>a. alerts (generateInterval (s\<lparr>isRunning := b\<rparr>) raw d) =
           take 50 (a # alerts s))" for b
      using g [of "s\<lparr>isRunning := b\<rparr>" raw d] by simp
    then have "alerts (togglePause s raw d) = alerts s \<or>
        (\<exists>a. alerts (togglePause s raw d) = take 50 (a # alerts s))"
      by (simp add: togglePause_def Let_def del: take_Cons_numeral)
    then show ?thesis
      using TogglePause by auto
  next
    case (Acknowledge tid)
    then show ?thesis
      by (simp add: acknowledgeAlert_def acknowledgeFound_ids)
  next
    case (Investigate tid)
    then show ?thesis
      by (simp add: investigateTransaction_def acknowledgeAlert_def acknowledgeFound_ids)
  qed
qed


lemma fire_tags: "snd (snd (fire c delta factor tag a)) = snd (snd a) @ (if c then tag else [])"
  by (cases a) (simp add: fire_def)

subsection \<open>Score and level\<close>





subsection \<open>The ledger\<close>

text \<open>
  C7. \<open>addTransaction\<close> puts the new entry in front and keeps the first 100, so the
  ledger never holds more than 100 entries, after an insertion and after any sequence of
  events of the dashboard. Inserting a list of transactions into the empty ledger leaves
  the last 100 of them, the latest first; after 101 insertions the first one inserted is
  gone. Scoring and acknowledging leave the ledger as it is, and every event of the
  dashboard either leaves the ledger as it is or puts one entry in front of it.
\<close>

theorem ledger_most_recent_first_capped:
  "transactions (addTransaction s t) = take 100 (t # transactions s) \<and>
   length (transactions (addTransaction s t)) \<le> 100 \<and>
   transactions (foldl addTransaction initial ts) = take 100 (rev ts) \<and>
   (length ts = 100 \<longrightarrow> transactions (foldl addTransaction initial (t0 # ts)) = rev ts) \<and>
   length (transactions (run es)) \<le> 100 \<and>
   transactions (snd (analyzeTransaction s t d)) = transactions s \<and>
   transactions (acknowledgeAlert s tid) = transactions s \<and>
   (transactions (step s e) = transactions s \<or>
    (\<exists>t'. transactions (step s e) = take 100 (t' # transactions s)))"
proof -
  have init: "length (transactions initial) \<le> 100" "transactions initial = []"
    by (simp_all add: initial_def)
  have a: "transactions (foldl addTransaction initial ts) = take 100 (rev ts)" for ts
    using foldl_addTransaction [OF init(1), of ts] by (simp add: init(2))
  have b: "length ts = 100 \<longrightarrow> transactions (foldl addTransaction initial (t0 # ts)) = rev ts"
    using a [of "t0 # ts"] by simp
  have c: "length (transactions (run es)) \<le> 100"
    unfolding run_def by (rule foldl_step_transactions_bound [OF init(1)])
  show ?thesis
    using a b c step_transactions [of s e]
    by (simp add: addTransaction_transactions analyze_transactions acknowledgeAlert_def
        del: take_Cons_numeral)
qed

theorem ledger_most_recent_first_capped_witness:
  "length (map (\<lambda>i. sample_txn ''T'' (int i) 100 ''ACH'') [1..<101]) = 100 \<and>
   transactions (foldl addTransaction initial
      (sample_txn ''T'' 0 100 ''ACH'' # map (\<lambda>i. sample_txn ''T'' (int i) 100 ''ACH'') [1..<101]))
     = rev (map (\<lambda>i. sample_txn ''T'' (int i) 100 ''ACH'') [1..<101])"
  using ledger_most_recent_first_capped
    [of undefined undefined "map (\<lambda>i. sample_txn ''T'' (int i) 100 ''ACH'') [1..<101]"
        "sample_txn ''T'' 0 100 ''ACH''"]
  by simp

subsection \<open>The alert list\<close>

text \<open>
  C8. \<open>generateAlert\<close> puts the new alert in front and keeps the first 50, so the alert
  list never holds more than 50 alerts, after an alert is raised and after any sequence
  of events of the dashboard. Raising a list of alerts from the empty list leaves the
  last 50 of them, the latest first; after 51 alerts the first one raised is gone.
  Acknowledging keeps the length, and the ledger insertion leaves the alerts as they are;
  every event of the dashboard either keeps the alerts and their order or puts one alert
  in front.
\<close>

theorem alerts_most_recent_first_capped:
  "alerts (generateAlert s t d) = take 50 (newAlert t d # alerts s) \<and>
   length (alerts (generateAlert s t d)) \<le> 50 \<and>
   alerts (foldl (\<lambda>s (t, d). generateAlert s t d) initial xs) =
     take 50 (rev (map (\<lambda>(t, d). newAlert t d) xs)) \<and>
   (length xs = 50 \<longrightarrow>
      alerts (foldl (\<lambda>s (t, d). generateAlert s t d) initial (x0 # xs)) =
        rev (map (\<lambda>(t, d). newAlert t d) xs)) \<and>
   length (alerts (run es)) \<le> 50 \<and>
   length (alerts (acknowledgeAlert s tid)) = length (alerts s) \<and>
   alerts (addTransaction s t) = alerts s \<and>
   (map transactionId (alerts (step s e)) = map transactionId (alerts s) \<or>
    (\<exists>a. alerts (step s e) = take 50 (a # alerts s)))"
proof -
  have init: "length (alerts initial) \<le> 50" "alerts initial = []"
    by (simp_all add: initial_def)
  have a: "alerts (foldl (\<lambda>s (t, d). generateAlert s t d) initial xs) =
     take 50 (rev (map (\<lambda>(t, d). newAlert t d) xs))" for xs
    using foldl_generateAlert [OF init(1), of xs] by (simp add: init(2))
  have b: "length xs = 50 \<longrightarrow>
      alerts (foldl (\<lambda>s (t, d). generateAlert s t d) initial (x0 # xs)) =
        rev (map (\<lambda>(t, d). newAlert t d) xs)"
    using a [of "x0 # xs"] by simp
  have c: "length (alerts (run es)) \<le> 50"
    unfolding run_def by (rule foldl_step_alerts_bound [OF init(1)])
  show ?thesis
    using a b c step_alerts [of s e]
    by (simp add: generateAlert_alerts acknowledgeAlert_def acknowledgeFound_length
        addTransaction_other del: take_Cons_numeral)
qed

theorem alerts_most_recent_first_capped_witness:
  "length (map (\<lambda>i. (sample_txn ''T'' (int i) 9500 ''Cryptocurrency'', sample_draws (int i)))
      [1..<51]) = 50 \<and>
   alerts (foldl (\<lambda>s (t, d). generateAlert s t d) initial
      ((sample_txn ''T'' 0 9500 ''Cryptocurrency'', sample_draws 0) #
       map (\<lambda>i. (sample_txn ''T'' (int i) 9500 ''Cryptocurrency'', sample_draws (int i)))
         [1..<51])) =
     rev (map (\<lambda>(t, d). newAlert t d)
       (map (\<lambda>i. (sample_txn ''T'' (int i) 9500 ''Cryptocurrency'', sample_draws (int i)))
         [1..<51]))"
  using alerts_most_recent_first_capped
    [of undefined undefined undefined
        "map (\<lambda>i. (sample_txn ''T'' (int i) 9500 ''Cryptocurrency'', sample_draws (int i)))
           [1..<51]"
        "(sample_txn ''T'' 0 9500 ''Cryptocurrency'', sample_draws 0)"]
  by simp

subsection \<open>The export\<close>

lemma highRisk_eq: "highRisk = (\<lambda>t. riskLevel t = High \<or> riskLevel t = Critical)"
  by (rule ext) (simp add: highRisk_def)

lemma sarEntry_eq:
  "sarEntry = (\<lambda>t. \<lparr>id_sar = id_txn t, timestamp_sar = timestamp t, amount_sar = amount t,
                currency_sar = currency t, riskScore_sar = riskScore t,
                patterns_sar = patterns t, riskFactors_sar = riskFactors t\<rparr>)"
  by (rule ext) (simp add: sarEntry_def)

text \<open>
  C9. The report of \<open>exportSAR\<close> carries the instant of its generation, one entry for
  each ledger entry whose level is High or Critical and for no other, in the ledger's
  order, each with the identifier, timestamp, amount, currency, score, patterns and risk
  factors of its transaction, and a count equal to the number of those entries.
\<close>

theorem export_high_and_critical_only:
  "reportDate (exportSAR s now) = now \<and>
   transactions_sar (exportSAR s now) =
     map (\<lambda>t. \<lparr>id_sar = id_txn t, timestamp_sar = timestamp t, amount_sar = amount t,
                currency_sar = currency t, riskScore_sar = riskScore t,
                patterns_sar = patterns t, riskFactors_sar = riskFactors t\<rparr>)
       (filter (\<lambda>t. riskLevel t = High \<or> riskLevel t = Critical) (transactions s)) \<and>
   totalTransactions (exportSAR s now) =
     length (filter (\<lambda>t. riskLevel t = High \<or> riskLevel t = Critical) (transactions s)) \<and>
   totalTransactions (exportSAR s now) = length (transactions_sar (exportSAR s now))"
  unfolding exportSAR_def Let_def highRisk_eq sarEntry_eq by simp

subsection \<open>Transactions on which no rule fires\<close>

lemma fire_factors_nil:
  "fst (snd (fire c delta factor tag a)) = [] \<longleftrightarrow> \<not> c \<and> fst (snd a) = []"
  by (cases a) (simp add: fire_def)

lemma fire_not: "\<not> c \<Longrightarrow> fire c delta factor tag a = a"
  by (cases a) (simp add: fire_def)

lemma nine_rules_no_factor:
  assumes "fst (snd
    (fire c9 d9 f9 g9
     (fire c8 d8 f8 g8
     (fire c7 d7 f7 g7
     (fire c6 d6 f6 g6
     (fire c5 d5 f5 g5
     (fire c4 d4 f4 g4
     (fire c3 d3 f3 g3
     (fire c2 d2 f2 g2
     (fire c1 d1 f1 g1 a)))))))))) = []"
  shows "fire c9 d9 f9 g9
     (fire c8 d8 f8 g8
     (fire c7 d7 f7 g7
     (fire c6 d6 f6 g6
     (fire c5 d5 f5 g5
     (fire c4 d4 f4 g4
     (fire c3 d3 f3 g3
     (fire c2 d2 f2 g2
     (fire c1 d1 f1 g1 a)))))))) = a"
  using assms by (simp add: fire_factors_nil fire_not)

lemma scoreRules_no_factor:
  assumes "fst (snd (scoreRules s t d)) = []"
  shows "scoreRules s t d = (0, [], patterns t)"
  using assms unfolding scoreRules_def by (rule nine_rules_no_factor)

text \<open>
  C10. When no rule fires (the risk-factor list of the analysed transaction is empty, each
  rule that fires adding one factor) and the jitter draw is in \<open>[0, 1)\<close>, so that the
  jitter \<open>r * 10 - 5\<close> is in \<open>[-5, 5)\<close>, the score is an integer from 1 to 4, the level
  is Low and the alert list is left as it was.
\<close>

theorem no_rule_low_no_alert:
  assumes "riskFactors (fst (analyzeTransaction s t d)) = []"
    and "0 \<le> jitterDraw d" and "jitterDraw d < 1"
  shows "(\<exists>k::int. riskScore (fst (analyzeTransaction s t d)) = of_int k \<and> 1 \<le> k \<and> k \<le> 4) \<and>
     riskLevel (fst (analyzeTransaction s t d)) = Low \<and>
     alerts (snd (analyzeTransaction s t d)) = alerts s"
proof -
  define k :: int where "k = max 1 (min 100 \<lfloor>jitterDraw d * 10 - 5\<rfloor>)"
  have "fst (snd (scoreRules s t d)) = []"
    using assms(1) by (simp add: analyze_fst)
  then have "scoreRules s t d = (0, [], patterns t)"
    by (rule scoreRules_no_factor)
  then have raw: "fst (scoreRules s t d) = 0"
    by simp
  have clamp: "clampScore (fst (scoreRules s t d) + (jitterDraw d * 10 - 5)) = of_int k"
    unfolding raw k_def by (simp add: clampScore_int)
  have score: "riskScore (fst (analyzeTransaction s t d)) = of_int k"
    unfolding analyze_fst clamp by simp
  have "jitterDraw d * 10 - 5 < 5"
    using assms(3) by simp
  then have "\<lfloor>jitterDraw d * 10 - 5\<rfloor> < 5"
    by (simp add: floor_less_iff)
  then have k: "1 \<le> k" "k \<le> 4"
    unfolding k_def by simp_all
  have "riskLevel (fst (analyzeTransaction s t d)) = levelOf (of_int k)"
    unfolding analyze_fst clamp by simp
  then have level: "riskLevel (fst (analyzeTransaction s t d)) = Low"
    unfolding levelOf_int using k by simp
  have "\<not> 51 \<le> riskScore (fst (analyzeTransaction s t d))"
    unfolding score using k by simp
  then have quiet: "alerts (snd (analyzeTransaction s t d)) = alerts s"
    by (simp add: analyze_alerts)
  from score k have "\<exists>k::int. riskScore (fst (analyzeTransaction s t d)) = of_int k \<and> 1 \<le> k \<and> k \<le> 4"
    by blast
  with level quiet show ?thesis
    by simp
qed

theorem no_rule_low_no_alert_witness:
  "riskFactors (fst (analyzeTransaction initial (sample_txn ''T1'' 1000 100 ''ACH'')
      (sample_draws 1000))) = [] \<and>
   riskScore (fst (analyzeTransaction initial (sample_txn ''T1'' 1000 100 ''ACH'')
      (sample_draws 1000))) = 1 \<and>
   riskLevel (fst (analyzeTransaction initial (sample_txn ''T1'' 1000 100 ''ACH'')
      (sample_draws 1000))) = Low \<and>
   alerts (snd (analyzeTransaction initial (sample_txn ''T1'' 1000 100 ''ACH'')
      (sample_draws 1000))) = []"
proof -
  let ?t = "sample_txn ''T1'' 1000 100 ''ACH''"
  let ?d = "sample_draws 1000"
  have h1: "riskFactors (fst (analyzeTransaction initial ?t ?d)) = []"
    by code_simp
  have h2: "0 \<le> jitterDraw ?d" "jitterDraw ?d < 1"
    by (simp_all add: sample_draws_def)
  have sc: "riskScore (fst (analyzeTransaction initial ?t ?d)) = 1"
    by code_simp
  show ?thesis
    using no_rule_low_no_alert [OF h1 h2] h1 sc by (simp add: initial_def)
qed

subsection \<open>The velocity window\<close>

lemma recentFrom_enumerate:
  "recentFrom nows k acct us =
     map snd (filter (\<lambda>(j, u). nows j - 3600000 < timestamp u)
       (enumerate k (filter (\<lambda>u. account (sender u) = acct) us)))"
  by (induction us arbitrary: k) auto

lemma recentFrom_constant:
  "recentFrom (\<lambda>k. now) k acct us =
     filter (\<lambda>u. account (sender u) = acct \<and> now - 3600000 < timestamp u) us"
  by (induction us arbitrary: k) auto


text \<open>
  C3, as the specification states it, fails where a ledger entry is exactly one hour old:
  the specification counts it, \<open>recentTransactions\<close> does not.
\<close>

theorem velocity_boundary_counterexample:
  "length (recentTransactions (run [Tick (sample_txn ''T0'' 0 100 ''ACH'') (sample_draws 0)])
       (sample_txn ''T1'' 3600000 100 ''ACH'') (\<lambda>k. 3600000)) = 0 \<and>
   countWithin_spec (run [Tick (sample_txn ''T0'' 0 100 ''ACH'') (sample_draws 0)])
       (account (sender (sample_txn ''T1'' 3600000 100 ''ACH''))) 3600000 3600000 = 1"
  by code_simp

text \<open>
  C3, amended. \<open>checkVelocity\<close> goes through the ledger entries of the sender's account in
  ledger order and reads the clock once for each; it counts the entry number \<open>k\<close> when
  its timestamp \<open>t\<close> satisfies \<open>now\<^sub>k - t < 3600000\<close>, that is when \<open>t\<close> is strictly later
  than that reading minus one hour, the window being fixed at one hour and open at its
  boundary, with no upper bound on \<open>t\<close>. When every reading is the same \<open>now\<close>, the
  entries counted are those of the account with \<open>now - 3600000 < t\<close>, and an entry exactly
  one hour old is not among them. The check holds when more than five are counted.
\<close>

theorem velocity_window_open_at_the_boundary:
  "recentTransactions s t nows =
     map snd (filter (\<lambda>(k, u). nows k - 3600000 < timestamp u)
       (enumerate 0 (filter (\<lambda>u. account (sender u) = account (sender t)) (transactions s)))) \<and>
   recentTransactions s t (\<lambda>k. now) =
     filter (\<lambda>u. account (sender u) = account (sender t) \<and> now - 3600000 < timestamp u)
       (transactions s) \<and>
   filter (\<lambda>u. timestamp u = now - 3600000) (recentTransactions s t (\<lambda>k. now)) = [] \<and>
   checkVelocity s t nows = (5 < length (recentTransactions s t nows))"
proof -
  have a: "recentTransactions s t (\<lambda>k. now) =
     filter (\<lambda>u. account (sender u) = account (sender t) \<and> now - 3600000 < timestamp u)
       (transactions s)"
    unfolding recentTransactions_def by (rule recentFrom_constant)
  have b: "filter (\<lambda>u. timestamp u = now - 3600000) (recentTransactions s t (\<lambda>k. now)) = []"
    unfolding a by (simp add: filter_empty_conv)
  have c: "recentTransactions s t nows =
     map snd (filter (\<lambda>(k, u). nows k - 3600000 < timestamp u)
       (enumerate 0 (filter (\<lambda>u. account (sender u) = account (sender t)) (transactions s))))"
    unfolding recentTransactions_def by (rule recentFrom_enumerate)
  from a b c show ?thesis
    by (simp add: checkVelocity_def)
qed

theorem velocity_window_open_at_the_boundary_witness:
  "map timestamp (transactions (run same_instant_six)) = [1000, 1000, 1000, 1000, 1000, 1000] \<and>
   length (recentTransactions (run same_instant_six) (sample_txn ''T7'' 1000 100 ''ACH'')
     ticking) = 1 \<and>
   length (recentTransactions (run same_instant_six) (sample_txn ''T7'' 1000 100 ''ACH'')
     (\<lambda>k. 3600999)) = 6 \<and>
   length (recentTransactions (run same_instant_six) (sample_txn ''T7'' 1000 100 ''ACH'')
     (\<lambda>k. 3601000)) = 0 \<and>
   \<not> checkVelocity (run same_instant_six) (sample_txn ''T7'' 1000 100 ''ACH'') ticking"
proof -
  let ?s = "run same_instant_six"
  let ?t = "sample_txn ''T7'' 1000 100 ''ACH''"
  have l: "map timestamp (transactions ?s) = [1000, 1000, 1000, 1000, 1000, 1000]"
    by code_simp
  have e: "length (map snd (filter (\<lambda>(k, u). ticking k - 3600000 < timestamp u)
       (enumerate 0 (filter (\<lambda>u. account (sender u) = account (sender ?t))
         (transactions ?s))))) = 1"
    by code_simp
  have f: "length (filter (\<lambda>u. account (sender u) = account (sender ?t) \<and>
      3600999 - 3600000 < timestamp u) (transactions ?s)) = 6"
    by code_simp
  have g: "length (filter (\<lambda>u. account (sender u) = account (sender ?t) \<and>
      3601000 - 3600000 < timestamp u) (transactions ?s)) = 0"
    by code_simp
  note T = velocity_window_open_at_the_boundary
  have c1: "length (recentTransactions ?s ?t ticking) = 1"
    using T [of ?s ?t ticking 0, THEN conjunct1] e by simp
  have c2: "length (recentTransactions ?s ?t (\<lambda>k. 3600999)) = 6"
    using T [of ?s ?t ticking 3600999, THEN conjunct2, THEN conjunct1] f by simp
  have c3: "length (recentTransactions ?s ?t (\<lambda>k. 3601000)) = 0"
    using T [of ?s ?t ticking 3601000, THEN conjunct2, THEN conjunct1] g by simp
  have c4: "\<not> checkVelocity ?s ?t ticking"
    using T [of ?s ?t ticking 0, THEN conjunct2, THEN conjunct2, THEN conjunct2] c1 by simp
  from l c1 c2 c3 c4 show ?thesis
    by (intro conjI)
qed

subsection \<open>The velocity rule\<close>












subsection \<open>The order of the updates\<close>

lemma alert_and_counters_commute:
  "snd (analyzeTransaction s t d) =
     (let t' = fst (analyzeTransaction s t d);
          s1 = s\<lparr>patterns_st := incrementPatterns (patterns t') (patterns_st s)\<rparr>
      in if riskScore t' \<ge> 51 then generateAlert s1 t' d else s1)"
  by (simp add: analyze_snd Let_def generateAlert_def)

text \<open>
  C4, as the specification states it, fails on any transaction that raises an alert: when
  \<open>generateTransaction\<close> returns, the alert is in the alert list and the ledger does not
  hold the transaction yet.
\<close>

theorem alert_precedes_ledger_counterexample:
  "map transactionId (alerts (snd (generateTransaction initial
       (sample_txn ''T1'' 1000 9500 ''Cryptocurrency'') (sample_draws 1000)))) = [''T1''] \<and>
   transactions (snd (generateTransaction initial
       (sample_txn ''T1'' 1000 9500 ''Cryptocurrency'') (sample_draws 1000))) = []"
  by code_simp

text \<open>
  C4, amended. \<open>generateTransaction\<close> scores the transaction and, on the ledger as it
  was, raises the alert when the score is at least 51 and increments the pattern
  counters; these two updates are of separate fields, and either order of them leaves the
  same state. The timer callback inserts the transaction into the ledger afterwards, with
  \<open>addTransaction\<close>, which leaves alerts and counters as they are: the ledger insertion
  is the last update. So an alert is created before its transaction is in the ledger, and
  once the callback has run the transaction is the first entry of the ledger and its
  alert, if one was raised, the first alert.
\<close>

theorem ledger_insertion_comes_last:
  "transactions (snd (generateTransaction s raw d)) = transactions s \<and>
   alerts (snd (generateTransaction s raw d)) =
     (if riskScore (fst (generateTransaction s raw d)) \<ge> 51
      then take 50 (newAlert (fst (generateTransaction s raw d)) d # alerts s)
      else alerts s) \<and>
   patterns_st (snd (generateTransaction s raw d)) =
     incrementPatterns (patterns (fst (generateTransaction s raw d))) (patterns_st s) \<and>
   (isRunning s \<longrightarrow>
      generateInterval s raw d =
        addTransaction (snd (generateTransaction s raw d)) (fst (generateTransaction s raw d)) \<and>
      transactions (generateInterval s raw d) =
        take 100 (fst (generateTransaction s raw d) # transactions s) \<and>
      alerts (generateInterval s raw d) = alerts (snd (generateTransaction s raw d)) \<and>
      patterns_st (generateInterval s raw d) = patterns_st (snd (generateTransaction s raw d))) \<and>
   (isRunning s \<and> riskScore (fst (generateTransaction s raw d)) \<ge> 51 \<longrightarrow>
      transactionId (hd (alerts (generateInterval s raw d))) =
        id_txn (hd (transactions (generateInterval s raw d)))) \<and>
   snd (generateTransaction s raw d) =
     (let t' = fst (generateTransaction s raw d);
          s1 = (if riskScore t' \<ge> 51 then generateAlert s t' d else s)
      in s1\<lparr>patterns_st := incrementPatterns (patterns t') (patterns_st s1)\<rparr>) \<and>
   snd (generateTransaction s raw d) =
     (let t' = fst (generateTransaction s raw d);
          s1 = s\<lparr>patterns_st := incrementPatterns (patterns t') (patterns_st s)\<rparr>
      in if riskScore t' \<ge> 51 then generateAlert s1 t' d else s1)"
proof -
  have a: "isRunning s \<longrightarrow>
      generateInterval s raw d =
        addTransaction (snd (generateTransaction s raw d)) (fst (generateTransaction s raw d))"
    by (simp add: generateInterval_eq)
  have b: "alerts (snd (generateTransaction s raw d)) =
     (if riskScore (fst (generateTransaction s raw d)) \<ge> 51
      then take 50 (newAlert (fst (generateTransaction s raw d)) d # alerts s)
      else alerts s)"
    unfolding generateTransaction_def by (rule analyze_alerts)
  have c: "transactions (snd (generateTransaction s raw d)) = transactions s"
    unfolding generateTransaction_def by (rule analyze_transactions)
  have e: "patterns_st (snd (generateTransaction s raw d)) =
     incrementPatterns (patterns (fst (generateTransaction s raw d))) (patterns_st s)"
    unfolding generateTransaction_def by (rule analyze_patterns_st)
  have f: "isRunning s \<longrightarrow>
      transactions (generateInterval s raw d) =
        take 100 (fst (generateTransaction s raw d) # transactions s) \<and>
      alerts (generateInterval s raw d) = alerts (snd (generateTransaction s raw d)) \<and>
      patterns_st (generateInterval s raw d) = patterns_st (snd (generateTransaction s raw d))"
    using c by (simp add: generateInterval_eq addTransaction_transactions addTransaction_other)
  have g: "isRunning s \<and> riskScore (fst (generateTransaction s raw d)) \<ge> 51 \<longrightarrow>
      transactionId (hd (alerts (generateInterval s raw d))) =
        id_txn (hd (transactions (generateInterval s raw d)))"
    using f b by (simp add: newAlert_def)
  have h: "snd (generateTransaction s raw d) =
     (let t' = fst (generateTransaction s raw d);
          s1 = (if riskScore t' \<ge> 51 then generateAlert s t' d else s)
      in s1\<lparr>patterns_st := incrementPatterns (patterns t') (patterns_st s1)\<rparr>)"
    unfolding generateTransaction_def by (rule analyze_snd)
  have i: "snd (generateTransaction s raw d) =
     (let t' = fst (generateTransaction s raw d);
          s1 = s\<lparr>patterns_st := incrementPatterns (patterns t') (patterns_st s)\<rparr>
      in if riskScore t' \<ge> 51 then generateAlert s1 t' d else s1)"
    unfolding generateTransaction_def by (rule alert_and_counters_commute)
  from a f have af: "isRunning s \<longrightarrow>
      generateInterval s raw d =
        addTransaction (snd (generateTransaction s raw d)) (fst (generateTransaction s raw d)) \<and>
      transactions (generateInterval s raw d) =
        take 100 (fst (generateTransaction s raw d) # transactions s) \<and>
      alerts (generateInterval s raw d) = alerts (snd (generateTransaction s raw d)) \<and>
      patterns_st (generateInterval s raw d) = patterns_st (snd (generateTransaction s raw d))"
    by blast
  from c b e af g h i show ?thesis
    by (intro conjI)
qed

theorem ledger_insertion_comes_last_witness:
  "isRunning initial \<and>
   riskScore (fst (generateTransaction initial
       (sample_txn ''T1'' 1000 9500 ''Cryptocurrency'') (sample_draws 1000))) = 55 \<and>
   transactions (snd (generateTransaction initial
       (sample_txn ''T1'' 1000 9500 ''Cryptocurrency'') (sample_draws 1000))) = [] \<and>
   map id_txn (transactions (generateInterval initial
       (sample_txn ''T1'' 1000 9500 ''Cryptocurrency'') (sample_draws 1000))) = [''T1''] \<and>
   transactionId (hd (alerts (generateInterval initial
       (sample_txn ''T1'' 1000 9500 ''Cryptocurrency'') (sample_draws 1000)))) =
     id_txn (hd (transactions (generateInterval initial
       (sample_txn ''T1'' 1000 9500 ''Cryptocurrency'') (sample_draws 1000))))"
proof -
  let ?t = "sample_txn ''T1'' 1000 9500 ''Cryptocurrency''"
  let ?d = "sample_draws 1000"
  have r: "isRunning initial"
    by (simp add: initial_def)
  have sc: "riskScore (fst (generateTransaction initial ?t ?d)) = 55"
    by code_simp
  have i: "id_txn (fst (generateTransaction initial ?t ?d)) = ''T1''"
    by code_simp
  have e: "transactions initial = []"
    by (simp add: initial_def)
  have hi: "51 \<le> riskScore (fst (generateTransaction initial ?t ?d))"
    by (simp add: sc)
  note T = ledger_insertion_comes_last [of initial ?t ?d]
  from T have l: "transactions (snd (generateTransaction initial ?t ?d)) = transactions initial"
    by blast
  from T r have m: "transactions (generateInterval initial ?t ?d) =
      take 100 (fst (generateTransaction initial ?t ?d) # transactions initial)"
    by blast
  from T r hi have h: "transactionId (hd (alerts (generateInterval initial ?t ?d))) =
      id_txn (hd (transactions (generateInterval initial ?t ?d)))"
    by blast
  show ?thesis
    using r sc h by (simp add: l m e i)
qed

subsection \<open>Acknowledging\<close>

lemma acknowledgeFound_unchanged:
  "(\<forall>a\<in>set as. Some (transactionId a) = tid \<longrightarrow> acknowledged a) \<Longrightarrow>
   acknowledgeFound tid as = as"
  by (induction as) auto

lemma acknowledgeFound_first:
  "(\<forall>b\<in>set pre. Some (transactionId b) \<noteq> tid) \<Longrightarrow> Some (transactionId a) = tid \<Longrightarrow>
   acknowledgeFound tid (pre @ a # post) = pre @ a\<lparr>acknowledged := True\<rparr> # post"
  by (induction pre) auto

lemma acknowledge_spec_absent:
  "tid \<notin> set (map transactionId as) \<Longrightarrow> acknowledge_spec tid as = as"
  by (induction as) auto

lemma acknowledgeFound_spec:
  "distinct (map transactionId as) \<Longrightarrow> acknowledgeFound (Some i) as = acknowledge_spec i as"
proof (induction as)
  case Nil
  show ?case by simp
next
  case (Cons a as)
  show ?case
  proof (cases "transactionId a = i")
    case True
    then have "i \<notin> set (map transactionId as)"
      using Cons.prems by auto
    then have "acknowledge_spec i as = as"
      by (rule acknowledge_spec_absent)
    then show ?thesis
      using True by (cases "acknowledged a") auto
  next
    case False
    then show ?thesis
      using Cons by simp
  qed
qed

lemma acknowledgeFound_idem:
  "acknowledgeFound tid (acknowledgeFound tid as) = acknowledgeFound tid as"
  by (induction as) auto


text \<open>
  C5, as the specification states it, fails where two alerts carry the same transaction
  identifier and the more recent one is acknowledged: the specification acknowledges the
  older one, \<open>acknowledgeAlert\<close> finds the more recent one again and changes nothing.
\<close>

theorem acknowledge_skips_older_counterexample:
  "map transactionId (alerts (run twice_alerted)) = [''T1'', ''T1''] \<and>
   map acknowledged (alerts (run twice_alerted)) = [True, False] \<and>
   map acknowledged (alerts (acknowledgeAlert (run twice_alerted) (Some ''T1''))) =
     [True, False] \<and>
   map acknowledged (acknowledge_spec ''T1'' (alerts (run twice_alerted))) = [True, True]"
  by code_simp

text \<open>
  C5, amended. \<open>acknowledgeAlert\<close> sets the flag of the most recent alert that matches
  the identifier, acknowledged or not, and touches no other alert, the ledger or the
  counters. When no alert matches, or every matching alert is acknowledged already, the
  state is unchanged; acknowledging twice is acknowledging once. When the alerts carry
  distinct transaction identifiers this is the acknowledgement of the specification.
\<close>

theorem acknowledge_most_recent_matching:
  "((\<forall>a\<in>set (alerts s). Some (transactionId a) = tid \<longrightarrow> acknowledged a) \<longrightarrow>
      acknowledgeAlert s tid = s) \<and>
   (alerts s = pre @ a # post \<and> (\<forall>b\<in>set pre. Some (transactionId b) \<noteq> tid) \<and>
    Some (transactionId a) = tid \<longrightarrow>
      alerts (acknowledgeAlert s tid) = pre @ a\<lparr>acknowledged := True\<rparr> # post) \<and>
   (distinct (map transactionId (alerts s)) \<longrightarrow>
      alerts (acknowledgeAlert s (Some i)) = acknowledge_spec i (alerts s)) \<and>
   acknowledgeAlert (acknowledgeAlert s tid) tid = acknowledgeAlert s tid \<and>
   transactions (acknowledgeAlert s tid) = transactions s \<and>
   patterns_st (acknowledgeAlert s tid) = patterns_st s"
proof -
  have a: "(\<forall>a\<in>set (alerts s). Some (transactionId a) = tid \<longrightarrow> acknowledged a) \<longrightarrow>
      acknowledgeAlert s tid = s"
    by (simp add: acknowledgeAlert_def acknowledgeFound_unchanged)
  have b: "alerts s = pre @ a # post \<and> (\<forall>b\<in>set pre. Some (transactionId b) \<noteq> tid) \<and>
    Some (transactionId a) = tid \<longrightarrow>
      alerts (acknowledgeAlert s tid) = pre @ a\<lparr>acknowledged := True\<rparr> # post"
    by (simp add: acknowledgeAlert_def acknowledgeFound_first)
  have c: "distinct (map transactionId (alerts s)) \<longrightarrow>
      alerts (acknowledgeAlert s (Some i)) = acknowledge_spec i (alerts s)"
    by (simp add: acknowledgeAlert_def acknowledgeFound_spec)
  have e: "acknowledgeAlert (acknowledgeAlert s tid) tid = acknowledgeAlert s tid"
    by (simp add: acknowledgeAlert_def acknowledgeFound_idem)
  from a b c e show ?thesis
    by (simp add: acknowledgeAlert_def)
qed

theorem acknowledge_most_recent_matching_witness:
  "acknowledgeAlert (run once_alerted) (Some ''T404'') = run once_alerted \<and>
   acknowledgeAlert (run (once_alerted @ [Acknowledge (Some ''T1'')])) (Some ''T1'') =
     run (once_alerted @ [Acknowledge (Some ''T1'')]) \<and>
   map acknowledged (alerts (run once_alerted)) = [False] \<and>
   map acknowledged (alerts (acknowledgeAlert (run once_alerted) (Some ''T1''))) = [True] \<and>
   alerts (acknowledgeAlert (run once_alerted) (Some ''T1'')) =
     acknowledge_spec ''T1'' (alerts (run once_alerted))"
proof -
  let ?s = "run once_alerted"
  let ?s' = "run (once_alerted @ [Acknowledge (Some ''T1'')])"
  let ?a = "hd (alerts ?s)"
  have h1: "\<forall>a\<in>set (alerts ?s). Some (transactionId a) = Some ''T404'' \<longrightarrow> acknowledged a"
    by code_simp
  have h2: "\<forall>a\<in>set (alerts ?s'). Some (transactionId a) = Some ''T1'' \<longrightarrow> acknowledged a"
    by code_simp
  have h3: "alerts ?s = [] @ ?a # []" "Some (transactionId ?a) = Some ''T1''"
    "\<not> acknowledged ?a"
    by code_simp+
  have h4: "distinct (map transactionId (alerts ?s))"
    by code_simp
  have c1: "acknowledgeAlert ?s (Some ''T404'') = ?s"
    using acknowledge_most_recent_matching [of ?s "Some ''T404''"] h1 by blast
  have c2: "acknowledgeAlert ?s' (Some ''T1'') = ?s'"
    using acknowledge_most_recent_matching [of ?s' "Some ''T1''"] h2 by blast
  have c3: "alerts (acknowledgeAlert ?s (Some ''T1'')) = [] @ ?a\<lparr>acknowledged := True\<rparr> # []"
    using acknowledge_most_recent_matching [of ?s "Some ''T1''" "[]" ?a "[]"] h3(1,2) by simp
  have c4: "alerts (acknowledgeAlert ?s (Some ''T1'')) = acknowledge_spec ''T1'' (alerts ?s)"
    using acknowledge_most_recent_matching [of ?s _ _ _ _ "''T1''"] h4 by blast
  have c5: "map acknowledged (alerts ?s) = [False]"
    by (subst h3(1)) (simp add: h3(3))
  have c6: "map acknowledged (alerts (acknowledgeAlert ?s (Some ''T1''))) = [True]"
    by (simp add: c3)
  from c1 c2 c5 c6 c4 show ?thesis
    by (intro conjI)
qed

subsection \<open>Incrementing the pattern counters\<close>

lemma incrementPatterns_apply:
  "incrementPatterns ps m p =
     (if p \<in> set ps then Some ((case m p of None \<Rightarrow> 0 | Some c \<Rightarrow> c) + count_list ps p)
      else m p)"
  by (induction ps arbitrary: m) (auto split: option.splits)

lemma incrementPatterns_dom: "dom (incrementPatterns ps m) = dom m \<union> set ps"
  by (induction ps arbitrary: m) auto

lemma initializePatterns_dom: "dom (initializePatterns ps m) = dom m \<union> set (map fst ps)"
  by (induction ps arbitrary: m) auto

lemma nine_rules_tags:
  "set (snd (snd
    (fire c9 d9 f9 [''Smurfing'']
     (fire c8 d8 f8 [''Layering'']
     (fire c7 d7 f7 [''Velocity'']
     (fire c6 d6 f6 []
     (fire c5 d5 f5 [''Large Cash'']
     (fire c4 d4 f4 [''Geographic Risk'']
     (fire c3 d3 f3 [''Structuring'']
     (fire c2 d2 f2 [''Round Amount'']
     (fire c1 d1 f1 []
     (a)))))))))))) \<subseteq>
   set (snd (snd a)) \<union> set (map fst amlPatterns)"
  by (auto simp: fire_tags amlPatterns_def split: if_splits)

lemma generateTransaction_tags:
  "set (patterns (fst (generateTransaction s raw d))) \<subseteq> set (map fst amlPatterns)"
proof -
  let ?t = "raw\<lparr>riskScore := 0, riskLevel := Low, patterns := [], riskFactors := []\<rparr>"
  have "set (snd (snd (scoreRules s ?t d))) \<subseteq>
      set (snd (snd (0::real, []::string list, patterns ?t))) \<union> set (map fst amlPatterns)"
    unfolding scoreRules_def by (rule nine_rules_tags)
  then show ?thesis
    by (simp add: generateTransaction_def analyze_fst)
qed

lemma generateInterval_dom:
  assumes "dom (patterns_st s) = set (map fst amlPatterns)"
  shows "dom (patterns_st (generateInterval s raw d)) = set (map fst amlPatterns)"
proof (cases "isRunning s")
  case True
  have "patterns_st (generateInterval s raw d) =
      incrementPatterns (patterns (fst (generateTransaction s raw d))) (patterns_st s)"
    using True
    by (simp add: generateInterval_eq addTransaction_other generateTransaction_def
        analyze_patterns_st)
  then show ?thesis
    using assms generateTransaction_tags [of s raw d]
    by (simp add: incrementPatterns_dom Un_absorb2)
next
  case False
  then show ?thesis
    using assms by (simp add: generateInterval_eq)
qed

lemma step_dom:
  assumes "dom (patterns_st s) = set (map fst amlPatterns)"
  shows "dom (patterns_st (step s e)) = set (map fst amlPatterns)"
proof (cases e)
  case (Tick raw d)
  then show ?thesis
    using assms by (simp add: generateInterval_dom)
next
  case (TogglePause raw d)
  have "dom (patterns_st (generateInterval (s\<lparr>isRunning := b\<rparr>) raw d)) =
      set (map fst amlPatterns)" for b
    by (rule generateInterval_dom) (simp add: assms)
  then show ?thesis
    using assms TogglePause by (simp add: togglePause_def Let_def)
next
  case (Acknowledge tid)
  then show ?thesis
    using assms by (simp add: acknowledgeAlert_def)
next
  case (Investigate tid)
  then show ?thesis
    using assms by (simp add: investigateTransaction_def acknowledgeAlert_def)
qed

lemma foldl_step_dom:
  "dom (patterns_st s) = set (map fst amlPatterns) \<Longrightarrow>
   dom (patterns_st (foldl step s es)) = set (map fst amlPatterns)"
  by (induction es arbitrary: s) (simp_all add: step_dom)


text \<open>
  C6, as the specification states it, fails on a tag outside the catalogue: no error is
  raised, and a counter is created for the tag and set to 1.
\<close>

theorem unknown_tag_counted_counterexample:
  "''Unknown'' \<notin> set (map fst amlPatterns) \<and>
   patterns_st initial ''Unknown'' = None \<and>
   incrementPatterns [''Unknown''] (patterns_st initial) ''Unknown'' = Some 1 \<and>
   patterns_st (snd (analyzeTransaction initial
       ((sample_txn ''T1'' 1000 100 ''ACH'')\<lparr>patterns := [''Unknown'']\<rparr>) (sample_draws 1000)))
     ''Unknown'' = Some 1"
  by code_simp

text \<open>
  C6, amended. The increment adds to the counter of each tag the number of times the tag
  occurs in the pattern list, whether the tag is in the catalogue or not: a tag without a
  counter gets one, and nothing is rejected. The rules emit catalogue tags only, so along
  every run of the dashboard the counters are exactly those of the catalogue.
\<close>

theorem increment_counts_every_tag:
  "incrementPatterns ps m p =
     (if p \<in> set ps then Some ((case m p of None \<Rightarrow> 0 | Some c \<Rightarrow> c) + count_list ps p)
      else m p) \<and>
   dom (incrementPatterns ps m) = dom m \<union> set ps \<and>
   patterns_st (snd (analyzeTransaction s t d)) =
     incrementPatterns (patterns (fst (analyzeTransaction s t d))) (patterns_st s) \<and>
   set (patterns (fst (generateTransaction s raw d))) \<subseteq> set (map fst amlPatterns) \<and>
   dom (patterns_st (run es)) = set (map fst amlPatterns)"
proof -
  have "dom (patterns_st initial) = set (map fst amlPatterns)"
    by (simp add: initial_def initializePatterns_dom)
  then have "dom (patterns_st (run es)) = set (map fst amlPatterns)"
    unfolding run_def by (rule foldl_step_dom)
  then show ?thesis
    using incrementPatterns_apply [of ps m p] generateTransaction_tags [of s raw d]
    by (simp add: incrementPatterns_dom analyze_patterns_st)
qed

theorem increment_counts_every_tag_witness:
  "patterns_st (run once_alerted) ''Structuring'' = Some 1 \<and>
   patterns_st (run once_alerted) ''Velocity'' = Some 0 \<and>
   patterns_st (run once_alerted) ''Unknown'' = None"
proof -
  have "patterns_st (run once_alerted) ''Structuring'' = Some 1"
    by code_simp
  moreover have "patterns_st (run once_alerted) ''Velocity'' = Some 0"
    by code_simp
  moreover have "''Unknown'' \<notin> set (map fst amlPatterns)"
    by code_simp
  ultimately show ?thesis
    using increment_counts_every_tag [of _ _ _ _ _ _ _ once_alerted]
    by (metis domIff)
qed

end
